theory Spec2Isabelle
  imports Main
begin

section \<open>Data model\<close>

text \<open>
  The rows of the store (\<^verbatim>\<open>services/database.ts\<close>, interfaces \<^verbatim>\<open>Block\<close>,
  \<^verbatim>\<open>Transaction\<close>, \<^verbatim>\<open>ContractInterface\<close>). Field names carry a prefix because the
  source reuses \<^verbatim>\<open>hash\<close> and \<^verbatim>\<open>gas_used\<close> in several interfaces. Quantities that the
  source keeps as decimal strings (the result of \<^verbatim>\<open>BigNumber.toString()\<close>) are
  represented by the number they denote, dates by their epoch milliseconds.
\<close>

record Block =
  b_number :: int
  b_hash :: string
  b_parent_hash :: string
  b_timestamp :: int
  b_transactions_count :: nat
  b_gas_used :: nat
  b_gas_limit :: nat
  b_base_fee_per_gas :: "nat option"

record Transaction =
  t_hash :: string
  t_block_number :: int
  t_from_address :: string
  t_to_address :: "string option"
  t_value :: nat
  t_gas_price :: nat
  t_gas_used :: nat
  t_input :: string
  t_status :: bool
  t_transaction_index :: nat
  t_nonce :: nat
  t_created_at :: int

record ContractInterface =
  ci_address :: string
  ci_interface_type :: string
  ci_detected_at :: int

text \<open>What the node returns (the \<^verbatim>\<open>ethers\<close> provider types used by the indexer).\<close>

record TransactionResponse =
  tr_hash :: string
  tr_from :: string
  tr_to :: "string option"
  tr_value :: nat
  tr_gasPrice :: "nat option"
  tr_data :: string
  tr_nonce :: nat

record TransactionReceipt =
  rc_gasUsed :: nat
  rc_status :: "nat option"
  rc_transactionIndex :: nat

record BlockWithTransactions =
  bw_hash :: string
  bw_parentHash :: string
  bw_timestamp :: int
  bw_transactions :: "TransactionResponse list"
  bw_gasUsed :: nat
  bw_gasLimit :: nat
  bw_baseFeePerGas :: "nat option"

text \<open>An item of a contract ABI, as far as \<^verbatim>\<open>detectAndStoreInterfaces\<close> reads it.\<close>

record AbiItem =
  abi_type :: string
  abi_name :: string

section \<open>Errors, the outside world, observable events\<close>

datatype error =
    RpcError            \<comment> \<open>a provider request rejected\<close>
  | DbError             \<comment> \<open>\<^verbatim>\<open>pool.query\<close> rejected\<close>
  | TypeError           \<comment> \<open>property read on a \<^verbatim>\<open>null\<close> block\<close>
  | NotConnected        \<comment> \<open>\<^verbatim>\<open>new Error('Not connected to blockchain')\<close>\<close>

datatype 'a rpc = Rejects | Resolves 'a

text \<open>
  The answers of the node and of the database server during one run. A write is
  accepted or refused depending on the row; a refused write leaves the table as it was.
\<close>

record env =
  network_ok :: bool
  head_number :: "int rpc"
  chain_block :: "int \<Rightarrow> BlockWithTransactions option rpc"
  chain_receipt :: "string \<Rightarrow> TransactionReceipt option rpc"
  block_write_ok :: "Block \<Rightarrow> bool"
  transaction_write_ok :: "Transaction \<Rightarrow> bool"
  interface_write_ok :: "ContractInterface \<Rightarrow> bool"
  read_ok :: bool
  now :: int

datatype message =
    AlreadyRunning
  | StartingFrom int
  | IndexerStopped
  | FinishedHistorical
  | Processed int nat
  | FailedToProcessBlock int
  | ErrorHistorical
  | FailedToStart
  | FailedToConnect
  | FailedGetLatestBlock
  | FailedInsertBlock
  | FailedInsertTransaction
  | FailedInsertInterface
  | FailedGetTotalTransactions
  | FailedGetInterfaces

datatype event =
    GetNetwork
  | GetBlockNumber
  | GetBlockWithTransactions int
  | GetTransactionReceipt string
  | ProviderOn
  | ProviderOff
  | Sleep nat
  | LogInfo message
  | LogWarn message
  | LogError message

record store =
  blocks :: "Block list"
  transactions :: "Transaction list"
  contract_interfaces :: "ContractInterface list"

text \<open>
  The fields of \<^verbatim>\<open>IndexerService\<close>, the database it writes to, the callback slot of
  \<^verbatim>\<open>BlockchainService\<close>, and the sequence of requests and log lines issued so far.
\<close>

record indexer =
  isIndexing :: bool
  lastProcessedBlock :: int
  db :: store
  newBlockCallback :: bool
  trace :: "event list"

definition emit :: "event \<Rightarrow> indexer \<Rightarrow> indexer" where
  "emit ev st = st\<lparr>trace := trace st @ [ev]\<rparr>"

section \<open>Persistence store\<close>

text \<open>
  \<^verbatim>\<open>INSERT ... ON CONFLICT (key) DO UPDATE SET\<close> every other column: the row with the
  same key is replaced where it stands, otherwise the row is added.
\<close>

fun upsert_row :: "('r \<Rightarrow> 'k) \<Rightarrow> 'r \<Rightarrow> 'r list \<Rightarrow> 'r list" where
  "upsert_row key r [] = [r]"
| "upsert_row key r (x # xs) =
     (if key x = key r then r # xs else x # upsert_row key r xs)"

fun find_row :: "('r \<Rightarrow> 'k) \<Rightarrow> 'k \<Rightarrow> 'r list \<Rightarrow> 'r option" where
  "find_row key k [] = None"
| "find_row key k (x # xs) = (if key x = k then Some x else find_row key k xs)"

text \<open>\<^verbatim>\<open>SELECT * FROM blocks ORDER BY number DESC LIMIT 1\<close>, \<^verbatim>\<open>rows[0] || null\<close>.\<close>

fun latest_row :: "Block list \<Rightarrow> Block option" where
  "latest_row [] = None"
| "latest_row (b # bs) =
     (case latest_row bs of
        None \<Rightarrow> Some b
      | Some c \<Rightarrow> if b_number b < b_number c then Some c else Some b)"

definition getLatestBlock :: "env \<Rightarrow> indexer \<Rightarrow> Block option \<times> indexer" where
  "getLatestBlock e st =
     (if read_ok e then (latest_row (blocks (db st)), st)
      else (None, emit (LogError FailedGetLatestBlock) st))"

definition insertBlock :: "env \<Rightarrow> Block \<Rightarrow> indexer \<Rightarrow> (error + unit) \<times> indexer" where
  "insertBlock e block st =
     (if block_write_ok e block
      then (Inr (), st\<lparr>db := (db st)\<lparr>blocks := upsert_row b_number block (blocks (db st))\<rparr>\<rparr>)
      else (Inl DbError, emit (LogError FailedInsertBlock) st))"

definition insertTransaction ::
  "env \<Rightarrow> Transaction \<Rightarrow> indexer \<Rightarrow> (error + unit) \<times> indexer" where
  "insertTransaction e transaction st =
     (if transaction_write_ok e transaction
      then (Inr (), st\<lparr>db := (db st)
              \<lparr>transactions := upsert_row t_hash transaction (transactions (db st))\<rparr>\<rparr>)
      else (Inl DbError, emit (LogError FailedInsertTransaction) st))"

definition getTotalTransactions :: "env \<Rightarrow> indexer \<Rightarrow> nat \<times> indexer" where
  "getTotalTransactions e st =
     (if read_ok e then (length (transactions (db st)), st)
      else (0, emit (LogError FailedGetTotalTransactions) st))"

text \<open>\<^verbatim>\<open>String.prototype.toLowerCase\<close> on the ASCII letters an address is written with.\<close>

definition lower_char :: "char \<Rightarrow> char" where
  "lower_char c =
     (case map_of (zip ''ABCDEFGHIJKLMNOPQRSTUVWXYZ'' ''abcdefghijklmnopqrstuvwxyz'') c of
        None \<Rightarrow> c
      | Some l \<Rightarrow> l)"

definition toLowerCase :: "string \<Rightarrow> string" where
  "toLowerCase s = map lower_char s"

definition insertContractInterface ::
  "env \<Rightarrow> string \<Rightarrow> string \<Rightarrow> indexer \<Rightarrow> (error + unit) \<times> indexer" where
  "insertContractInterface e address interfaceType st =
     (let row = \<lparr>ci_address = toLowerCase address, ci_interface_type = interfaceType,
                 ci_detected_at = now e\<rparr>
      in if interface_write_ok e row
         then (Inr (), st\<lparr>db := (db st)\<lparr>contract_interfaces :=
                 upsert_row (\<lambda>r. (ci_address r, ci_interface_type r)) row
                   (contract_interfaces (db st))\<rparr>\<rparr>)
         else (Inl DbError, emit (LogError FailedInsertInterface) st))"

definition getContractInterfaces :: "env \<Rightarrow> string \<Rightarrow> indexer \<Rightarrow> string list \<times> indexer" where
  "getContractInterfaces e address st =
     (if read_ok e
      then (map ci_interface_type
              (filter (\<lambda>row. ci_address row = toLowerCase address) (contract_interfaces (db st))),
            st)
      else ([], emit (LogError FailedGetInterfaces) st))"

section \<open>Chain client\<close>

text \<open>
  \<^verbatim>\<open>BlockchainService\<close>: every method forwards to the provider; only
  \<^verbatim>\<open>isConnected\<close> catches the rejection.
\<close>

definition isConnected :: "env \<Rightarrow> indexer \<Rightarrow> bool \<times> indexer" where
  "isConnected e st =
     (let st1 = emit GetNetwork st
      in if network_ok e then (True, st1) else (False, emit (LogError FailedToConnect) st1))"

definition getLatestBlockNumber :: "env \<Rightarrow> indexer \<Rightarrow> (error + int) \<times> indexer" where
  "getLatestBlockNumber e st =
     (case head_number e of
        Rejects \<Rightarrow> (Inl RpcError, emit GetBlockNumber st)
      | Resolves n \<Rightarrow> (Inr n, emit GetBlockNumber st))"

definition getBlockWithTransactions ::
  "env \<Rightarrow> int \<Rightarrow> indexer \<Rightarrow> (error + BlockWithTransactions option) \<times> indexer" where
  "getBlockWithTransactions e blockNumber st =
     (case chain_block e blockNumber of
        Rejects \<Rightarrow> (Inl RpcError, emit (GetBlockWithTransactions blockNumber) st)
      | Resolves b \<Rightarrow> (Inr b, emit (GetBlockWithTransactions blockNumber) st))"

definition getTransactionReceipt ::
  "env \<Rightarrow> string \<Rightarrow> indexer \<Rightarrow> (error + TransactionReceipt option) \<times> indexer" where
  "getTransactionReceipt e txHash st =
     (case chain_receipt e txHash of
        Rejects \<Rightarrow> (Inl RpcError, emit (GetTransactionReceipt txHash) st)
      | Resolves r \<Rightarrow> (Inr r, emit (GetTransactionReceipt txHash) st))"

definition subscribeToNewBlocks :: "indexer \<Rightarrow> indexer" where
  "subscribeToNewBlocks st = emit ProviderOn (st\<lparr>newBlockCallback := True\<rparr>)"

definition unsubscribeFromNewBlocks :: "indexer \<Rightarrow> indexer" where
  "unsubscribeFromNewBlocks st = (emit ProviderOff st)\<lparr>newBlockCallback := False\<rparr>"

section \<open>Ingestion pipeline\<close>

text \<open>The constructor of \<^verbatim>\<open>IndexerService\<close>, on a given database.\<close>

definition new_indexer :: "store \<Rightarrow> indexer" where
  "new_indexer d =
     \<lparr>isIndexing = False, lastProcessedBlock = 0, db = d, newBlockCallback = False,
      trace = []\<rparr>"

definition empty_store :: store where
  "empty_store = \<lparr>blocks = [], transactions = [], contract_interfaces = []\<rparr>"

text \<open>The two object literals built in \<^verbatim>\<open>processBlock\<close>.\<close>

definition block_of :: "int \<Rightarrow> BlockWithTransactions \<Rightarrow> Block" where
  "block_of blockNumber blockWithTxs =
     \<lparr>b_number = blockNumber,
      b_hash = bw_hash blockWithTxs,
      b_parent_hash = bw_parentHash blockWithTxs,
      b_timestamp = bw_timestamp blockWithTxs * 1000,
      b_transactions_count = length (bw_transactions blockWithTxs),
      b_gas_used = bw_gasUsed blockWithTxs,
      b_gas_limit = bw_gasLimit blockWithTxs,
      b_base_fee_per_gas = bw_baseFeePerGas blockWithTxs\<rparr>"

definition transaction_of ::
  "int \<Rightarrow> BlockWithTransactions \<Rightarrow> TransactionResponse \<Rightarrow> TransactionReceipt \<Rightarrow> Transaction"
where
  "transaction_of blockNumber blockWithTxs tx receipt =
     \<lparr>t_hash = tr_hash tx,
      t_block_number = blockNumber,
      t_from_address = tr_from tx,
      t_to_address = (case tr_to tx of None \<Rightarrow> None
                      | Some a \<Rightarrow> if a = [] then None else Some a),
      t_value = tr_value tx,
      t_gas_price = (case tr_gasPrice tx of None \<Rightarrow> 0 | Some g \<Rightarrow> g),
      t_gas_used = rc_gasUsed receipt,
      t_input = tr_data tx,
      t_status = (rc_status receipt = Some 1),
      t_transaction_index = rc_transactionIndex receipt,
      t_nonce = tr_nonce tx,
      t_created_at = bw_timestamp blockWithTxs * 1000\<rparr>"

text \<open>The \<^verbatim>\<open>for (const tx of blockWithTxs.transactions)\<close> loop of \<^verbatim>\<open>processBlock\<close>.\<close>

fun processTransactions ::
  "env \<Rightarrow> int \<Rightarrow> BlockWithTransactions \<Rightarrow> TransactionResponse list \<Rightarrow> indexer
     \<Rightarrow> (error + unit) \<times> indexer" where
  "processTransactions e blockNumber blockWithTxs [] st = (Inr (), st)"
| "processTransactions e blockNumber blockWithTxs (tx # txs) st =
     (case getTransactionReceipt e (tr_hash tx) st of
        (Inl err, st1) \<Rightarrow> (Inl err, st1)
      | (Inr None, st1) \<Rightarrow> processTransactions e blockNumber blockWithTxs txs st1
      | (Inr (Some receipt), st1) \<Rightarrow>
          (case insertTransaction e (transaction_of blockNumber blockWithTxs tx receipt) st1 of
             (Inl err, st2) \<Rightarrow> (Inl err, st2)
           | (Inr u, st2) \<Rightarrow> processTransactions e blockNumber blockWithTxs txs st2))"

text \<open>The \<^verbatim>\<open>try\<close> block of \<^verbatim>\<open>processBlock\<close>.\<close>

definition processBlock_try :: "env \<Rightarrow> int \<Rightarrow> indexer \<Rightarrow> (error + unit) \<times> indexer" where
  "processBlock_try e blockNumber st =
     (case getBlockWithTransactions e blockNumber st of
        (Inl err, st1) \<Rightarrow> (Inl err, st1)
      | (Inr None, st1) \<Rightarrow> (Inl TypeError, st1)
      | (Inr (Some blockWithTxs), st1) \<Rightarrow>
          (case insertBlock e (block_of blockNumber blockWithTxs) st1 of
             (Inl err, st2) \<Rightarrow> (Inl err, st2)
           | (Inr u, st2) \<Rightarrow>
               (case processTransactions e blockNumber blockWithTxs
                       (bw_transactions blockWithTxs) st2 of
                  (Inl err, st3) \<Rightarrow> (Inl err, st3)
                | (Inr u, st3) \<Rightarrow>
                    (Inr (),
                     emit (LogInfo (Processed blockNumber (length (bw_transactions blockWithTxs))))
                       (st3\<lparr>lastProcessedBlock := blockNumber\<rparr>)))))"

text \<open>\<^verbatim>\<open>processBlock\<close>: the \<^verbatim>\<open>catch\<close> logs and throws again.\<close>

definition processBlock :: "env \<Rightarrow> int \<Rightarrow> indexer \<Rightarrow> (error + unit) \<times> indexer" where
  "processBlock e blockNumber st =
     (case processBlock_try e blockNumber st of
        (Inl err, st1) \<Rightarrow> (Inl err, emit (LogError (FailedToProcessBlock blockNumber)) st1)
      | (Inr u, st1) \<Rightarrow> (Inr u, st1))"

text \<open>
  \<^verbatim>\<open>handleNewBlock\<close>, run to completion: the callback of the live subscription. It never
  rejects, so it returns the state only.
\<close>

definition handleNewBlock :: "env \<Rightarrow> int \<Rightarrow> indexer \<Rightarrow> indexer" where
  "handleNewBlock e blockNumber st =
     (if \<not> isIndexing st then st
      else (case processBlock e blockNumber st of
              (Inl err, st1) \<Rightarrow> emit (LogError (FailedToProcessBlock blockNumber)) st1
            | (Inr u, st1) \<Rightarrow> st1))"

text \<open>
  \<^verbatim>\<open>processHistoricalBlocks\<close>. The loop retries a failing block for ever, so the model
  counts iterations: \<open>None\<close> means that the loop has not returned within \<open>fuel\<close>
  iterations.
\<close>

fun processHistoricalBlocks :: "nat \<Rightarrow> env \<Rightarrow> indexer \<Rightarrow> indexer option" where
  "processHistoricalBlocks 0 e st = None"
| "processHistoricalBlocks (Suc fuel) e st =
     (if \<not> isIndexing st then Some st
      else (case getLatestBlockNumber e st of
              (Inl err, st1) \<Rightarrow>
                processHistoricalBlocks fuel e (emit (Sleep 5000) (emit (LogError ErrorHistorical) st1))
            | (Inr latestBlockNumber, st1) \<Rightarrow>
                (let nextBlock = lastProcessedBlock st1 + 1
                 in if nextBlock > latestBlockNumber
                    then Some (emit (LogInfo FinishedHistorical) st1)
                    else (case processBlock e nextBlock st1 of
                            (Inl err, st2) \<Rightarrow>
                              processHistoricalBlocks fuel e
                                (emit (Sleep 5000) (emit (LogError ErrorHistorical) st2))
                          | (Inr u, st2) \<Rightarrow> processHistoricalBlocks fuel e st2))))"


text \<open>\<^verbatim>\<open>start\<close>; \<open>fuel\<close> bounds the iterations of the backfill loop it awaits.\<close>

definition start :: "nat \<Rightarrow> env \<Rightarrow> indexer \<Rightarrow> ((error + unit) \<times> indexer) option" where
  "start fuel e st =
     (if isIndexing st then Some (Inr (), emit (LogWarn AlreadyRunning) st)
      else (case isConnected e st of
              (False, st1) \<Rightarrow> Some (Inl NotConnected, emit (LogError FailedToStart) st1)
            | (True, st1) \<Rightarrow>
                (case getLatestBlock e st1 of
                   (lastBlock, st2) \<Rightarrow>
                     (let st3 = st2\<lparr>lastProcessedBlock :=
                                  (case lastBlock of
                                     None \<Rightarrow> 0
                                   | Some b \<Rightarrow> if b_number b = 0 then 0 else b_number b)\<rparr>;
                          st4 = st3\<lparr>isIndexing := True\<rparr>;
                          st5 = emit (LogInfo (StartingFrom (lastProcessedBlock st4))) st4;
                          st6 = subscribeToNewBlocks st5
                      in (case processHistoricalBlocks fuel e st6 of
                            None \<Rightarrow> None
                          | Some st7 \<Rightarrow> Some (Inr (), st7))))))"

definition stop :: "indexer \<Rightarrow> indexer" where
  "stop st =
     (if \<not> isIndexing st then st
      else emit (LogInfo IndexerStopped) (unsubscribeFromNewBlocks (st\<lparr>isIndexing := False\<rparr>)))"

definition getLastProcessedBlock :: "indexer \<Rightarrow> int" where
  "getLastProcessedBlock st = lastProcessedBlock st"

definition isRunning :: "indexer \<Rightarrow> bool" where
  "isRunning st = isIndexing st"

section \<open>Interface classifier\<close>

definition interfaceDetectors :: "(string \<times> string list) list" where
  "interfaceDetectors =
     [(''ERC20'', [''balanceOf'', ''transfer'', ''approve'', ''allowance'', ''transferFrom'']),
      (''ERC721'', [''ownerOf'', ''approve'', ''transferFrom'', ''safeTransferFrom'']),
      (''ERC1155'', [''balanceOf'', ''balanceOfBatch'', ''safeBatchTransferFrom''])]"

text \<open>The \<^verbatim>\<open>Set\<close> of the names of the ABI items of type \<^verbatim>\<open>function\<close>.\<close>

definition functions_of :: "AbiItem list \<Rightarrow> string set" where
  "functions_of abi = set (map abi_name (filter (\<lambda>item. abi_type item = ''function'') abi))"

text \<open>The loop over \<^verbatim>\<open>Object.entries(interfaceDetectors)\<close>.\<close>

fun storeInterfaces ::
  "env \<Rightarrow> string \<Rightarrow> string set \<Rightarrow> (string \<times> string list) list \<Rightarrow> indexer
     \<Rightarrow> (error + unit) \<times> indexer" where
  "storeInterfaces e address functions [] st = (Inr (), st)"
| "storeInterfaces e address functions ((interfaceType, requiredFunctions) # rest) st =
     (if list_all (\<lambda>func. func \<in> functions) requiredFunctions
      then (case insertContractInterface e address interfaceType st of
              (Inl err, st1) \<Rightarrow> (Inl err, st1)
            | (Inr u, st1) \<Rightarrow> storeInterfaces e address functions rest st1)
      else storeInterfaces e address functions rest st)"

definition detectAndStoreInterfaces ::
  "env \<Rightarrow> string \<Rightarrow> AbiItem list \<Rightarrow> indexer \<Rightarrow> (error + unit) \<times> indexer" where
  "detectAndStoreInterfaces e address abi st =
     storeInterfaces e address (functions_of abi) interfaceDetectors st"

section \<open>Conditions and observations used in the statements\<close>

text \<open>
  The node and the store serve one transaction of a pass: its receipt fetch resolves,
  and, when the receipt is there, the write of its row is accepted.
\<close>

definition receipt_ok :: "env \<Rightarrow> int \<Rightarrow> BlockWithTransactions \<Rightarrow> TransactionResponse \<Rightarrow> bool" where
  "receipt_ok e n bw tx =
     (case chain_receipt e (tr_hash tx) of
        Rejects \<Rightarrow> False
      | Resolves None \<Rightarrow> True
      | Resolves (Some r) \<Rightarrow> transaction_write_ok e (transaction_of n bw tx r))"

text \<open>No fetch and no write of the pass over block \<open>n\<close> fails; \<open>bw\<close> is the block fetched.\<close>

definition pass_succeeds :: "env \<Rightarrow> int \<Rightarrow> BlockWithTransactions \<Rightarrow> bool" where
  "pass_succeeds e n bw \<longleftrightarrow>
     chain_block e n = Resolves (Some bw) \<and> block_write_ok e (block_of n bw) \<and>
     list_all (receipt_ok e n bw) (bw_transactions bw)"

text \<open>The block numbers requested from the node, in the order of the requests.\<close>

fun blocks_fetched :: "event list \<Rightarrow> int list" where
  "blocks_fetched [] = []"
| "blocks_fetched (GetBlockWithTransactions n # evs) = n # blocks_fetched evs"
| "blocks_fetched (ev # evs) = blocks_fetched evs"

text \<open>
  What the backfill loop maintains when it starts from watermark 0: the watermark is
  never negative, no stored block has a number below 1, and the watermark is 0 or the
  number of a stored block.
\<close>

definition backfill_inv :: "indexer \<Rightarrow> bool" where
  "backfill_inv st \<longleftrightarrow>
     0 \<le> lastProcessedBlock st \<and>
     (\<forall>b \<in> set (blocks (db st)). 1 \<le> b_number b) \<and>
     (lastProcessedBlock st = 0 \<or> lastProcessedBlock st \<in> b_number ` set (blocks (db st)))"

section \<open>Concrete scenarios\<close>

definition tx_a :: TransactionResponse where
  "tx_a = \<lparr>tr_hash = ''0xa1'', tr_from = ''0xf0'', tr_to = Some ''0xf1'', tr_value = 5,
           tr_gasPrice = Some 1, tr_data = ''0x'', tr_nonce = 0\<rparr>"

definition receipt_a :: TransactionReceipt where
  "receipt_a = \<lparr>rc_gasUsed = 21000, rc_status = Some 1, rc_transactionIndex = 0\<rparr>"

definition sample_block :: "TransactionResponse list \<Rightarrow> BlockWithTransactions" where
  "sample_block txs =
     \<lparr>bw_hash = ''0xb0'', bw_parentHash = ''0xb1'', bw_timestamp = 1700000000,
      bw_transactions = txs, bw_gasUsed = 21000, bw_gasLimit = 30000000,
      bw_baseFeePerGas = None\<rparr>"

text \<open>
  The chain of the backfill scenario: head 2, blocks 0, 1 and 2 with no, one and no
  transaction; the node and the database answer every request.
\<close>

definition scenario_env :: env where
  "scenario_env =
     \<lparr>network_ok = True,
      head_number = Resolves 2,
      chain_block = (\<lambda>n. if n = 1 then Resolves (Some (sample_block [tx_a]))
                          else if n = 0 \<or> n = 2 then Resolves (Some (sample_block []))
                          else Resolves None),
      chain_receipt = (\<lambda>h. if h = ''0xa1'' then Resolves (Some receipt_a) else Resolves None),
      block_write_ok = (\<lambda>b. True),
      transaction_write_ok = (\<lambda>t. True),
      interface_write_ok = (\<lambda>r. True),
      read_ok = True,
      now = 1700000000000\<rparr>"

text \<open>The same chain while the node has no receipt yet.\<close>

definition pending_env :: env where
  "pending_env = scenario_env\<lparr>chain_receipt := (\<lambda>h. Resolves None)\<rparr>"


text \<open>A longer chain of empty blocks.\<close>

definition long_env :: env where
  "long_env = scenario_env\<lparr>head_number := Resolves 20,
                            chain_block := (\<lambda>n. Resolves (Some (sample_block [])))\<rparr>"

definition fresh :: indexer where
  "fresh = new_indexer empty_store"

text \<open>A started indexer whose watermark is \<open>n\<close>.\<close>

definition running_at :: "int \<Rightarrow> indexer" where
  "running_at n = fresh\<lparr>isIndexing := True, lastProcessedBlock := n\<rparr>"

text \<open>A store that already holds block 1 and one transaction.\<close>

definition stored_once :: indexer where
  "stored_once =
     fresh\<lparr>db := \<lparr>blocks = [block_of 1 (sample_block [])],
                   transactions = [transaction_of 2 (sample_block [tx_a]) tx_a receipt_a],
                   contract_interfaces = []\<rparr>\<rparr>"

text \<open>The node does not answer the network query.\<close>

definition offline_env :: env where
  "offline_env = scenario_env\<lparr>network_ok := False\<rparr>"

text \<open>A chain that consists of its genesis block only.\<close>

definition genesis_env :: env where
  "genesis_env = scenario_env\<lparr>head_number := Resolves 0\<rparr>"

text \<open>The state in which \<^verbatim>\<open>start\<close> leaves a new indexer on the scenario chain.\<close>

definition scenario_final :: indexer where
  "scenario_final =
     \<lparr>isIndexing = True, lastProcessedBlock = 2,
      db = \<lparr>blocks = [block_of 1 (sample_block [tx_a]), block_of 2 (sample_block [])],
            transactions = [transaction_of 1 (sample_block [tx_a]) tx_a receipt_a],
            contract_interfaces = []\<rparr>,
      newBlockCallback = True,
      trace = [GetNetwork, LogInfo (StartingFrom 0), ProviderOn,
               GetBlockNumber, GetBlockWithTransactions 1, GetTransactionReceipt ''0xa1'',
               LogInfo (Processed 1 1),
               GetBlockNumber, GetBlockWithTransactions 2, LogInfo (Processed 2 0),
               GetBlockNumber, LogInfo FinishedHistorical]\<rparr>"



text \<open>A running indexer at watermark 10 whose store holds blocks 4 and 5.\<close>

definition stale_store :: indexer where
  "stale_store =
     (running_at 10)\<lparr>db := \<lparr>blocks = [block_of 4 (sample_block []),
                                       block_of 5 (sample_block [tx_a])],
                              transactions = [], contract_interfaces = []\<rparr>\<rparr>"

text \<open>Contract ABIs for the classifier.\<close>

definition fn :: "string \<Rightarrow> AbiItem" where
  "fn name = \<lparr>abi_type = ''function'', abi_name = name\<rparr>"

definition erc20_abi :: "AbiItem list" where
  "erc20_abi = \<lparr>abi_type = ''event'', abi_name = ''Transfer''\<rparr> #
     map fn [''balanceOf'', ''transfer'', ''approve'', ''allowance'', ''transferFrom'']"

definition erc721_abi :: "AbiItem list" where
  "erc721_abi = map fn [''ownerOf'', ''approve'', ''transferFrom'', ''safeTransferFrom'']"

definition plain_abi :: "AbiItem list" where
  "plain_abi = \<lparr>abi_type = ''event'', abi_name = ''balanceOf''\<rparr> #
     map fn [''transfer'', ''approve'', ''ownerOf'']"

section \<open>Lemmas on the store\<close>

lemma upsert_row_idem: "upsert_row key r (upsert_row key r xs) = upsert_row key r xs"
  by (induction xs) auto

lemma upsert_row_keys: "key ` set (upsert_row key r xs) = insert (key r) (key ` set xs)"
  by (induction xs) auto

lemma upsert_row_distinct:
  "distinct (map key xs) \<Longrightarrow> distinct (map key (upsert_row key r xs))"
proof (induction xs)
  case Nil
  then show ?case by simp
next
  case (Cons x xs)
  show ?case
  proof (cases "key x = key r")
    case True
    with Cons.prems show ?thesis by simp
  next
    case False
    have "key x \<notin> key ` set (upsert_row key r xs)"
      using False Cons.prems by (simp add: upsert_row_keys)
    with False Cons show ?thesis by simp
  qed
qed

lemma find_row_upsert:
  "find_row key k (upsert_row key r xs) = (if k = key r then Some r else find_row key k xs)"
  by (induction xs) auto

lemma find_row_None: "find_row key k xs = None \<longleftrightarrow> k \<notin> key ` set xs"
  by (induction xs) auto

lemma upsert_row_length:
  "length (upsert_row key r xs) = (if key r \<in> key ` set xs then length xs else Suc (length xs))"
  by (induction xs) auto

lemma filter_key_absent: "k \<notin> key ` set xs \<Longrightarrow> filter (\<lambda>x. key x = k) xs = []"
  by (induction xs) auto

lemma upsert_row_single:
  "distinct (map key xs) \<Longrightarrow> filter (\<lambda>x. key x = key r) (upsert_row key r xs) = [r]"
  by (induction xs) (auto simp: filter_key_absent)

section \<open>Lemmas on one block pass\<close>

lemma blocks_fetched_append: "blocks_fetched (xs @ ys) = blocks_fetched xs @ blocks_fetched ys"
  by (induction xs rule: blocks_fetched.induct) auto

lemma emit_fields [simp]:
  "isIndexing (emit ev st) = isIndexing st"
  "lastProcessedBlock (emit ev st) = lastProcessedBlock st"
  "db (emit ev st) = db st"
  "newBlockCallback (emit ev st) = newBlockCallback st"
  "trace (emit ev st) = trace st @ [ev]"
  by (simp_all add: emit_def)

lemma getTransactionReceipt_frame:
  "getTransactionReceipt e h st = (r, st1) \<Longrightarrow>
     isIndexing st1 = isIndexing st \<and> lastProcessedBlock st1 = lastProcessedBlock st \<and>
     db st1 = db st \<and> blocks_fetched (trace st1) = blocks_fetched (trace st)"
  by (auto simp: getTransactionReceipt_def blocks_fetched_append split: rpc.splits)

lemma insertTransaction_frame:
  "insertTransaction e t st = (r, st1) \<Longrightarrow>
     isIndexing st1 = isIndexing st \<and> lastProcessedBlock st1 = lastProcessedBlock st \<and>
     blocks (db st1) = blocks (db st) \<and> blocks_fetched (trace st1) = blocks_fetched (trace st)"
  by (auto simp: insertTransaction_def blocks_fetched_append split: if_splits)

lemma processTransactions_frame:
  "processTransactions e n bw txs st = (r, st') \<Longrightarrow>
     isIndexing st' = isIndexing st \<and> lastProcessedBlock st' = lastProcessedBlock st \<and>
     blocks (db st') = blocks (db st) \<and> blocks_fetched (trace st') = blocks_fetched (trace st)"
proof (induction txs arbitrary: st)
  case Nil
  then show ?case by simp
next
  case (Cons tx txs)
  obtain rr st1 where g: "getTransactionReceipt e (tr_hash tx) st = (rr, st1)"
    by (cases "getTransactionReceipt e (tr_hash tx) st")
  note f1 = getTransactionReceipt_frame [OF g]
  show ?case
  proof (cases rr)
    case (Inl err)
    with Cons.prems g f1 show ?thesis by simp
  next
    case (Inr ro)
    show ?thesis
    proof (cases ro)
      case None
      with Cons.prems g Inr have "processTransactions e n bw txs st1 = (r, st')" by simp
      from Cons.IH [OF this] f1 show ?thesis by simp
    next
      case (Some receipt)
      obtain ri st2 where i: "insertTransaction e (transaction_of n bw tx receipt) st1 = (ri, st2)"
        by (cases "insertTransaction e (transaction_of n bw tx receipt) st1")
      note f2 = insertTransaction_frame [OF i]
      show ?thesis
      proof (cases ri)
        case (Inl err)
        with Cons.prems g Inr Some i f1 f2 show ?thesis by simp
      next
        case (Inr u)
        with Cons.prems g \<open>rr = Inr ro\<close> Some i
        have "processTransactions e n bw txs st2 = (r, st')" by simp
        from Cons.IH [OF this] f1 f2 show ?thesis by simp
      qed
    qed
  qed
qed


lemma processTransactions_ok:
  "list_all (receipt_ok e n bw) txs \<Longrightarrow> fst (processTransactions e n bw txs st) = Inr ()"
  by (induction txs arbitrary: st)
     (auto simp: receipt_ok_def getTransactionReceipt_def insertTransaction_def
           split: rpc.splits option.splits)

lemma processTransactions_ok_conv:
  "fst (processTransactions e n bw txs st) = Inr () \<Longrightarrow> list_all (receipt_ok e n bw) txs"
  by (induction txs arbitrary: st)
     (auto simp: receipt_ok_def getTransactionReceipt_def insertTransaction_def
           split: rpc.splits option.splits if_splits)

lemma processTransactions_skip:
  "chain_receipt e h = Resolves None \<Longrightarrow>
     find_row t_hash h (transactions (db (snd (processTransactions e n bw txs st))))
       = find_row t_hash h (transactions (db st))"
  by (induction txs arbitrary: st)
     (auto simp: getTransactionReceipt_def insertTransaction_def find_row_upsert
           transaction_of_def split: rpc.splits option.splits)

lemma processBlock_watermark:
  "lastProcessedBlock (snd (processBlock e n st)) =
     (case fst (processBlock e n st) of Inl err \<Rightarrow> lastProcessedBlock st | Inr u \<Rightarrow> n)"
  by (auto simp: processBlock_def processBlock_try_def getBlockWithTransactions_def
        insertBlock_def
      split: prod.splits sum.splits option.splits rpc.splits if_splits
      dest!: processTransactions_frame)

lemma processBlock_isIndexing:
  "isIndexing (snd (processBlock e n st)) = isIndexing st"
  by (auto simp: processBlock_def processBlock_try_def getBlockWithTransactions_def
        insertBlock_def
      split: prod.splits sum.splits option.splits rpc.splits if_splits
      dest!: processTransactions_frame)

lemma processBlock_fetched:
  "blocks_fetched (trace (snd (processBlock e n st))) = blocks_fetched (trace st) @ [n]"
  by (auto simp: processBlock_def processBlock_try_def getBlockWithTransactions_def
        insertBlock_def blocks_fetched_append
      split: prod.splits sum.splits option.splits rpc.splits if_splits
      dest!: processTransactions_frame)

lemma processBlock_blocks:
  "blocks (db (snd (processBlock e n st))) =
     (case chain_block e n of
        Resolves (Some bw) \<Rightarrow>
          if block_write_ok e (block_of n bw)
          then upsert_row b_number (block_of n bw) (blocks (db st)) else blocks (db st)
      | _ \<Rightarrow> blocks (db st))"
  by (auto simp: processBlock_def processBlock_try_def getBlockWithTransactions_def
        insertBlock_def
      split: prod.splits sum.splits option.splits rpc.splits if_splits
      dest!: processTransactions_frame)

section \<open>Idempotent writes\<close>

text \<open>
  C8. Writing the same block, or the same transaction, a second time leaves the store
  as the first write left it. After the write exactly one row carries the block's
  number (the transaction's hash), and it is the row written; the keys of the table
  stay distinct; a block whose number is already stored replaces the stored row, so
  the table does not grow.
\<close>

theorem upsert_idempotent:
  assumes "block_write_ok e block" and "transaction_write_ok e tx"
    and "distinct (map b_number (blocks (db st)))"
    and "distinct (map t_hash (transactions (db st)))"
  shows "insertBlock e block (snd (insertBlock e block st)) = insertBlock e block st
       \<and> insertTransaction e tx (snd (insertTransaction e tx st)) = insertTransaction e tx st
       \<and> filter (\<lambda>b. b_number b = b_number block) (blocks (db (snd (insertBlock e block st)))) = [block]
       \<and> filter (\<lambda>t. t_hash t = t_hash tx) (transactions (db (snd (insertTransaction e tx st)))) = [tx]
       \<and> distinct (map b_number (blocks (db (snd (insertBlock e block st)))))
       \<and> distinct (map t_hash (transactions (db (snd (insertTransaction e tx st)))))
       \<and> (b_number block \<in> b_number ` set (blocks (db st)) \<longrightarrow>
            length (blocks (db (snd (insertBlock e block st)))) = length (blocks (db st)))"
  using assms
  by (simp add: insertBlock_def insertTransaction_def upsert_row_idem upsert_row_single
      upsert_row_distinct upsert_row_length)

theorem upsert_idempotent_witness:
  "block_write_ok scenario_env (block_of 1 (sample_block [tx_a]))
   \<and> transaction_write_ok scenario_env (transaction_of 1 (sample_block [tx_a]) tx_a receipt_a)
   \<and> distinct (map b_number (blocks (db stored_once)))
   \<and> distinct (map t_hash (transactions (db stored_once)))
   \<and> b_number (block_of 1 (sample_block [tx_a])) \<in> b_number ` set (blocks (db stored_once))
   \<and> blocks (db (snd (insertBlock scenario_env (block_of 1 (sample_block [tx_a])) stored_once)))
        = [block_of 1 (sample_block [tx_a])]
   \<and> insertBlock scenario_env (block_of 1 (sample_block [tx_a]))
        (snd (insertBlock scenario_env (block_of 1 (sample_block [tx_a])) stored_once))
      = insertBlock scenario_env (block_of 1 (sample_block [tx_a])) stored_once
   \<and> transactions (db (snd (insertTransaction scenario_env
         (transaction_of 1 (sample_block [tx_a]) tx_a receipt_a) stored_once)))
        = [transaction_of 1 (sample_block [tx_a]) tx_a receipt_a]
   \<and> insertTransaction scenario_env (transaction_of 1 (sample_block [tx_a]) tx_a receipt_a)
        (snd (insertTransaction scenario_env
           (transaction_of 1 (sample_block [tx_a]) tx_a receipt_a) stored_once))
      = insertTransaction scenario_env (transaction_of 1 (sample_block [tx_a]) tx_a receipt_a)
          stored_once"
proof -
  have h1: "block_write_ok scenario_env (block_of 1 (sample_block [tx_a]))"
    by (simp add: scenario_env_def)
  have h2: "transaction_write_ok scenario_env
              (transaction_of 1 (sample_block [tx_a]) tx_a receipt_a)"
    by (simp add: scenario_env_def)
  have h3: "distinct (map b_number (blocks (db stored_once)))"
    by (simp add: stored_once_def)
  have h4: "distinct (map t_hash (transactions (db stored_once)))"
    by (simp add: stored_once_def)
  have rest: "b_number (block_of 1 (sample_block [tx_a])) \<in> b_number ` set (blocks (db stored_once))
   \<and> blocks (db (snd (insertBlock scenario_env (block_of 1 (sample_block [tx_a])) stored_once)))
        = [block_of 1 (sample_block [tx_a])]
   \<and> transactions (db (snd (insertTransaction scenario_env
         (transaction_of 1 (sample_block [tx_a]) tx_a receipt_a) stored_once)))
        = [transaction_of 1 (sample_block [tx_a]) tx_a receipt_a]"
    by (simp add: stored_once_def insertBlock_def insertTransaction_def scenario_env_def
        block_of_def transaction_of_def)
  show ?thesis
    using h1 h2 h3 h4 rest upsert_idempotent [OF h1 h2 h3 h4] by simp
qed

section \<open>Notifications while the indexer is not running\<close>

text \<open>
  C10. While \<^verbatim>\<open>isIndexing\<close> is false, \<^verbatim>\<open>handleNewBlock\<close> returns the state it was
  given: nothing is requested from the node (the trace is the same), nothing is
  written, and the watermark does not move. This is so for a new indexer, after a
  \<^verbatim>\<open>start\<close> that failed because the node was not reachable, and after \<^verbatim>\<open>stop\<close>,
  which clears the flag: a block announced after \<^verbatim>\<open>stop\<close> is not ingested.
\<close>

theorem stopped_ignores_notifications:
  "(\<not> isIndexing st \<longrightarrow> handleNewBlock e blockNumber st = st)
   \<and> handleNewBlock e blockNumber (new_indexer d) = new_indexer d
   \<and> (\<not> isIndexing st \<and> \<not> network_ok e \<longrightarrow>
        (\<exists>st1. start fuel e st = Some (Inl NotConnected, st1)
               \<and> handleNewBlock e blockNumber st1 = st1))
   \<and> isIndexing (stop st) = False
   \<and> handleNewBlock e blockNumber (stop st) = stop st"
  by (simp add: handleNewBlock_def stop_def unsubscribeFromNewBlocks_def new_indexer_def
      start_def isConnected_def)

theorem stopped_ignores_notifications_witness:
  "\<not> isIndexing fresh \<and> handleNewBlock scenario_env 1 fresh = fresh
   \<and> \<not> network_ok offline_env
   \<and> (\<exists>st1. start 3 offline_env fresh = Some (Inl NotConnected, st1)
           \<and> handleNewBlock offline_env 1 st1 = st1)
   \<and> isIndexing (running_at 0)
   \<and> handleNewBlock scenario_env 1 (stop (running_at 0)) = stop (running_at 0)
   \<and> trace (handleNewBlock scenario_env 1 (stop (running_at 0)))
       = [ProviderOff, LogInfo IndexerStopped]
   \<and> db (handleNewBlock scenario_env 1 (stop (running_at 0))) = empty_store
   \<and> lastProcessedBlock (handleNewBlock scenario_env 1 (stop (running_at 0))) = 0"
proof -
  have h: "\<not> isIndexing fresh" "\<not> network_ok offline_env" "isIndexing (running_at 0)"
    by (simp_all add: fresh_def running_at_def new_indexer_def offline_env_def)
  have s: "trace (stop (running_at 0)) = [ProviderOff, LogInfo IndexerStopped]"
    "db (stop (running_at 0)) = empty_store" "lastProcessedBlock (stop (running_at 0)) = 0"
    by (simp_all add: fresh_def running_at_def new_indexer_def stop_def
        unsubscribeFromNewBlocks_def)
  show ?thesis
    using h s stopped_ignores_notifications [of fresh scenario_env 1]
      stopped_ignores_notifications [of fresh offline_env 1 _ 3]
      stopped_ignores_notifications [of "running_at 0" scenario_env 1]
    by simp
qed

section \<open>Starting twice\<close>

text \<open>
  C5, as amended. \<^verbatim>\<open>start\<close> on a running indexer logs a warning and returns
  normally: the result is a success, not an error, and apart from the log line the
  state (flag, watermark, store) is the one before the call.
\<close>

theorem start_while_running:
  "isIndexing st \<Longrightarrow> start fuel e st = Some (Inr (), emit (LogWarn AlreadyRunning) st)"
  by (simp add: start_def)

theorem start_while_running_witness:
  "isIndexing (running_at 0)
   \<and> start 0 scenario_env (running_at 0)
       = Some (Inr (), emit (LogWarn AlreadyRunning) (running_at 0))"
proof -
  have h: "isIndexing (running_at 0)" by (simp add: running_at_def)
  show ?thesis using h start_while_running [OF h, of 0 scenario_env] by simp
qed

text \<open>C5 as stated fails: the call on a running indexer returns successfully.\<close>

theorem start_while_running_counterexample:
  "isRunning (running_at 7)
   \<and> start 3 long_env (running_at 7)
       = Some (Inr (), emit (LogWarn AlreadyRunning) (running_at 7))"
  by (simp add: isRunning_def running_at_def start_def)

section \<open>More on one block pass\<close>

lemma processTransactions_ok_pair:
  "processTransactions e n bw txs st = (Inr (), st') \<Longrightarrow> list_all (receipt_ok e n bw) txs"
  using processTransactions_ok_conv [of e n bw txs st] by simp

lemma processBlock_ok_iff:
  "fst (processBlock e n st) = Inr () \<longleftrightarrow> (\<exists>bw. pass_succeeds e n bw)"
proof
  assume "fst (processBlock e n st) = Inr ()"
  then show "\<exists>bw. pass_succeeds e n bw"
    by (auto simp: processBlock_def processBlock_try_def getBlockWithTransactions_def
          insertBlock_def pass_succeeds_def
        split: prod.splits sum.splits option.splits rpc.splits if_splits
        dest: processTransactions_ok_pair)
next
  assume "\<exists>bw. pass_succeeds e n bw"
  then obtain bw where "pass_succeeds e n bw" ..
  then show "fst (processBlock e n st) = Inr ()"
    by (simp add: processBlock_def processBlock_try_def getBlockWithTransactions_def
          insertBlock_def pass_succeeds_def case_prod_beta processTransactions_ok)
qed

lemma processBlock_skip:
  "chain_receipt e h = Resolves None \<Longrightarrow>
     find_row t_hash h (transactions (db (snd (processBlock e n st))))
       = find_row t_hash h (transactions (db st))"
  by (simp add: processBlock_def processBlock_try_def getBlockWithTransactions_def
        insertBlock_def case_prod_beta processTransactions_skip
      split: sum.splits option.splits rpc.splits)

lemma processBlock_other_blocks:
  "m \<noteq> n \<Longrightarrow>
     find_row b_number m (blocks (db (snd (processBlock e n st))))
       = find_row b_number m (blocks (db st))"
  by (simp add: processBlock_blocks find_row_upsert block_of_def
      split: rpc.splits option.splits)

lemma processBlock_this_block:
  "pass_succeeds e n bw \<Longrightarrow>
     find_row b_number n (blocks (db (snd (processBlock e n st)))) = Some (block_of n bw)"
  by (simp add: processBlock_blocks find_row_upsert block_of_def pass_succeeds_def)


lemma handleNewBlock_running:
  "isIndexing st \<Longrightarrow>
     lastProcessedBlock (handleNewBlock e b st) = lastProcessedBlock (snd (processBlock e b st))
     \<and> db (handleNewBlock e b st) = db (snd (processBlock e b st))
     \<and> blocks_fetched (trace (handleNewBlock e b st))
         = blocks_fetched (trace (snd (processBlock e b st)))"
  by (simp add: handleNewBlock_def case_prod_beta blocks_fetched_append split: sum.splits)

lemma processBlock_result_cases:
  "fst (processBlock e n st) = Inr () \<or> (\<exists>err. fst (processBlock e n st) = Inl err)"
  by (cases "fst (processBlock e n st)") auto




section \<open>Absent receipts\<close>

text \<open>
  C1, as amended. A transaction whose receipt fetch returns absent is skipped by the
  pass: the row stored under its hash, if any, is the one from before the pass. The
  skip does not hold the watermark back: when no fetch and no write of the pass fails,
  \<^verbatim>\<open>processBlock\<close> succeeds and \<^verbatim>\<open>getLastProcessedBlock()\<close> is the block number
  afterwards. Only a pass in which a fetch or a write fails ends with an error, and
  then \<^verbatim>\<open>getLastProcessedBlock()\<close> is what it was before.
\<close>

theorem absent_receipt_skipped_watermark_advances:
  "(\<forall>h. chain_receipt e h = Resolves None \<longrightarrow>
        find_row t_hash h (transactions (db (snd (processBlock e n st))))
          = find_row t_hash h (transactions (db st)))
   \<and> ((\<exists>bw. pass_succeeds e n bw) \<longrightarrow>
        fst (processBlock e n st) = Inr ()
        \<and> getLastProcessedBlock (snd (processBlock e n st)) = n)
   \<and> (\<not> (\<exists>bw. pass_succeeds e n bw) \<longrightarrow>
        (\<exists>err. fst (processBlock e n st) = Inl err)
        \<and> getLastProcessedBlock (snd (processBlock e n st)) = getLastProcessedBlock st)"
proof -
  have good: "fst (processBlock e n st) = Inr ()
              \<and> getLastProcessedBlock (snd (processBlock e n st)) = n"
    if "\<exists>bw. pass_succeeds e n bw"
  proof -
    from that have ok: "fst (processBlock e n st) = Inr ()"
      by (simp add: processBlock_ok_iff)
    then show ?thesis
      by (simp add: getLastProcessedBlock_def processBlock_watermark)
  qed
  have bad: "(\<exists>err. fst (processBlock e n st) = Inl err)
             \<and> getLastProcessedBlock (snd (processBlock e n st)) = getLastProcessedBlock st"
    if "\<not> (\<exists>bw. pass_succeeds e n bw)"
  proof -
    from that obtain err where "fst (processBlock e n st) = Inl err"
      using processBlock_ok_iff [of e n st] processBlock_result_cases [of e n st] by blast
    then show ?thesis
      by (simp add: getLastProcessedBlock_def processBlock_watermark)
  qed
  from good bad show ?thesis
    by (simp add: processBlock_skip)
qed

theorem absent_receipt_skipped_watermark_advances_witness:
  "tx_a \<in> set (bw_transactions (sample_block [tx_a]))
   \<and> chain_receipt pending_env (tr_hash tx_a) = Resolves None
   \<and> pass_succeeds pending_env 1 (sample_block [tx_a])
   \<and> fst (processBlock pending_env 1 (running_at 0)) = Inr ()
   \<and> getLastProcessedBlock (snd (processBlock pending_env 1 (running_at 0))) = 1
   \<and> find_row t_hash (tr_hash tx_a)
        (transactions (db (snd (processBlock pending_env 1 (running_at 0))))) = None
   \<and> chain_block pending_env 7 = Resolves None
   \<and> fst (processBlock pending_env 7 (running_at 0)) = Inl TypeError
   \<and> getLastProcessedBlock (snd (processBlock pending_env 7 (running_at 0))) = 0"
proof -
  have p: "pass_succeeds pending_env 1 (sample_block [tx_a])"
    by (simp add: pass_succeeds_def pending_env_def scenario_env_def sample_block_def
        receipt_ok_def)
  then have h: "\<exists>bw. pass_succeeds pending_env 1 bw" ..
  have a: "tx_a \<in> set (bw_transactions (sample_block [tx_a]))"
    by (simp add: sample_block_def)
  have r: "chain_receipt pending_env (tr_hash tx_a) = Resolves None"
    by (simp add: pending_env_def)
  have s: "find_row t_hash (tr_hash tx_a) (transactions (db (running_at 0))) = None"
    "getLastProcessedBlock (running_at 0) = 0"
    by (simp_all add: running_at_def fresh_def new_indexer_def empty_store_def
        getLastProcessedBlock_def)
  have c: "chain_block pending_env 7 = Resolves None"
    by (simp add: pending_env_def scenario_env_def)
  then have n: "\<not> (\<exists>bw. pass_succeeds pending_env 7 bw)"
    by (simp add: pass_succeeds_def)
  have t: "fst (processBlock pending_env 7 (running_at 0)) = Inl TypeError"
    using c by (simp add: processBlock_def processBlock_try_def getBlockWithTransactions_def)
  note one = absent_receipt_skipped_watermark_advances [of pending_env 1 "running_at 0"]
  note seven = absent_receipt_skipped_watermark_advances [of pending_env 7 "running_at 0"]
  show ?thesis
    using p h a r s c n t one seven by simp
qed

text \<open>
  C1 as stated fails: block 1 holds one transaction whose receipt is absent; the pass
  writes no transaction and moves the watermark from 0 to 1.
\<close>

theorem absent_receipt_counterexample:
  "chain_block pending_env 1 = Resolves (Some (sample_block [tx_a]))
   \<and> chain_receipt pending_env (tr_hash tx_a) = Resolves None
   \<and> getLastProcessedBlock (running_at 0) = 0
   \<and> getLastProcessedBlock (snd (processBlock pending_env 1 (running_at 0))) = 1
   \<and> transactions (db (snd (processBlock pending_env 1 (running_at 0)))) = []"
  by (simp add: pending_env_def scenario_env_def sample_block_def running_at_def fresh_def
      new_indexer_def empty_store_def getLastProcessedBlock_def processBlock_def
      processBlock_try_def getBlockWithTransactions_def insertBlock_def
      getTransactionReceipt_def tx_a_def emit_def)



section \<open>Live notifications\<close>

text \<open>
  C3, as amended. For a notification for a block \<open>b\<close> beyond watermark + 1 the running
  handler asks the node for block \<open>b\<close> and for no other block, leaves the stored row
  of every other block number as it was (the blocks between the watermark and \<open>b\<close> are
  not ingested), and sets the watermark to \<open>b\<close> when the pass over \<open>b\<close> succeeds;
  when the pass fails the watermark stays.
\<close>

theorem gap_notification_processes_only_that_block:
  assumes "isIndexing st" and "lastProcessedBlock st + 1 < b"
  shows "blocks_fetched (trace (handleNewBlock e b st)) = blocks_fetched (trace st) @ [b]
       \<and> (\<forall>m. m \<noteq> b \<longrightarrow>
             find_row b_number m (blocks (db (handleNewBlock e b st)))
               = find_row b_number m (blocks (db st)))
       \<and> ((\<exists>bw. pass_succeeds e b bw) \<longrightarrow> getLastProcessedBlock (handleNewBlock e b st) = b)
       \<and> (\<not> (\<exists>bw. pass_succeeds e b bw) \<longrightarrow>
             getLastProcessedBlock (handleNewBlock e b st) = getLastProcessedBlock st)"
proof -
  note run = handleNewBlock_running [OF assms(1), of e b]
  have fetched: "blocks_fetched (trace (handleNewBlock e b st)) = blocks_fetched (trace st) @ [b]"
    using run by (simp add: processBlock_fetched)
  have others: "\<forall>m. m \<noteq> b \<longrightarrow>
      find_row b_number m (blocks (db (handleNewBlock e b st)))
        = find_row b_number m (blocks (db st))"
    using run by (simp add: processBlock_other_blocks)
  have good: "getLastProcessedBlock (handleNewBlock e b st) = b" if "\<exists>bw. pass_succeeds e b bw"
  proof -
    from that have "fst (processBlock e b st) = Inr ()" by (simp add: processBlock_ok_iff)
    then show ?thesis using run by (simp add: getLastProcessedBlock_def processBlock_watermark)
  qed
  have bad: "getLastProcessedBlock (handleNewBlock e b st) = getLastProcessedBlock st"
    if "\<not> (\<exists>bw. pass_succeeds e b bw)"
  proof -
    from that obtain err where "fst (processBlock e b st) = Inl err"
      using processBlock_ok_iff [of e b st] processBlock_result_cases [of e b st] by blast
    then show ?thesis using run by (simp add: getLastProcessedBlock_def processBlock_watermark)
  qed
  from fetched others good bad show ?thesis by blast
qed

theorem gap_notification_processes_only_that_block_witness:
  "isIndexing (running_at 10) \<and> lastProcessedBlock (running_at 10) + 1 < 15
   \<and> pass_succeeds long_env 15 (sample_block [])
   \<and> blocks_fetched (trace (handleNewBlock long_env 15 (running_at 10))) = [15]
   \<and> find_row b_number 11 (blocks (db (handleNewBlock long_env 15 (running_at 10)))) = None
   \<and> find_row b_number 14 (blocks (db (handleNewBlock long_env 15 (running_at 10)))) = None
   \<and> getLastProcessedBlock (handleNewBlock long_env 15 (running_at 10)) = 15"
proof -
  have h1: "isIndexing (running_at 10)" by (simp add: running_at_def)
  have h2: "lastProcessedBlock (running_at 10) + 1 < 15" by (simp add: running_at_def)
  have p: "pass_succeeds long_env 15 (sample_block [])"
    by (simp add: pass_succeeds_def long_env_def scenario_env_def sample_block_def)
  have s: "blocks_fetched (trace (running_at 10)) = []
           \<and> find_row b_number 11 (blocks (db (running_at 10))) = None
           \<and> find_row b_number 14 (blocks (db (running_at 10))) = None"
    by (simp add: running_at_def fresh_def new_indexer_def empty_store_def)
  have "\<exists>bw. pass_succeeds long_env 15 bw" using p by blast
  then show ?thesis
    using h1 h2 p s gap_notification_processes_only_that_block [OF h1 h2, of long_env]
    by simp
qed

text \<open>
  C3 as stated fails: with watermark 10 and a notification for 15, only block 15 is
  fetched and stored, and \<^verbatim>\<open>getLastProcessedBlock()\<close> is 15.
\<close>

theorem gap_notification_counterexample:
  "getLastProcessedBlock (running_at 10) = 10
   \<and> isRunning (running_at 10)
   \<and> getLastProcessedBlock (handleNewBlock long_env 15 (running_at 10)) = 15
   \<and> blocks_fetched (trace (handleNewBlock long_env 15 (running_at 10))) = [15]
   \<and> map b_number (blocks (db (handleNewBlock long_env 15 (running_at 10)))) = [15]"
  by (simp add: long_env_def scenario_env_def sample_block_def running_at_def fresh_def
      new_indexer_def empty_store_def getLastProcessedBlock_def isRunning_def
      handleNewBlock_def processBlock_def
      processBlock_try_def getBlockWithTransactions_def insertBlock_def block_of_def emit_def)

text \<open>
  C4, as amended. A notification for a block \<open>b\<close> at or below the watermark is
  processed like any other by the running handler: block \<open>b\<close> is fetched again, and
  when the pass succeeds its row is written again and the watermark is set to \<open>b\<close>.
  On a table with distinct block numbers the write replaces the stored row: afterwards
  exactly one row carries the number \<open>b\<close>, and a table that held \<open>b\<close> has not grown.
\<close>

theorem stale_notification_is_reprocessed:
  assumes "isIndexing st" and "b \<le> lastProcessedBlock st" and "pass_succeeds e b bw"
  shows "blocks_fetched (trace (handleNewBlock e b st)) = blocks_fetched (trace st) @ [b]
       \<and> find_row b_number b (blocks (db (handleNewBlock e b st))) = Some (block_of b bw)
       \<and> getLastProcessedBlock (handleNewBlock e b st) = b
       \<and> (distinct (map b_number (blocks (db st))) \<longrightarrow>
            filter (\<lambda>row. b_number row = b) (blocks (db (handleNewBlock e b st))) = [block_of b bw]
            \<and> distinct (map b_number (blocks (db (handleNewBlock e b st))))
            \<and> (b \<in> b_number ` set (blocks (db st)) \<longrightarrow>
                 length (blocks (db (handleNewBlock e b st))) = length (blocks (db st))))"
proof -
  note run = handleNewBlock_running [OF assms(1), of e b]
  have "fst (processBlock e b st) = Inr ()"
    using assms(3) processBlock_ok_iff by blast
  then have wm: "lastProcessedBlock (snd (processBlock e b st)) = b"
    by (simp add: processBlock_watermark)
  have rows: "blocks (db (handleNewBlock e b st))
                = upsert_row b_number (block_of b bw) (blocks (db st))"
    using run assms(3) by (simp add: processBlock_blocks pass_succeeds_def)
  have key: "b_number (block_of b bw) = b" by (simp add: block_of_def)
  have one: "filter (\<lambda>row. b_number row = b) (blocks (db (handleNewBlock e b st))) = [block_of b bw]"
    if "distinct (map b_number (blocks (db st)))"
    using upsert_row_single [OF that, of "block_of b bw"] by (simp only: rows key)
  have dist: "distinct (map b_number (blocks (db (handleNewBlock e b st))))"
    if "distinct (map b_number (blocks (db st)))"
    unfolding rows using that by (rule upsert_row_distinct)
  have len: "length (blocks (db (handleNewBlock e b st))) = length (blocks (db st))"
    if "b \<in> b_number ` set (blocks (db st))"
    unfolding rows using that by (simp add: upsert_row_length key)
  from run wm one dist len show ?thesis
    by (simp add: getLastProcessedBlock_def processBlock_fetched
        processBlock_this_block [OF assms(3)])
qed

theorem stale_notification_is_reprocessed_witness:
  "isIndexing (running_at 10) \<and> 5 \<le> lastProcessedBlock (running_at 10)
   \<and> pass_succeeds long_env 5 (sample_block [])
   \<and> blocks_fetched (trace (handleNewBlock long_env 5 (running_at 10))) = [5]
   \<and> find_row b_number 5 (blocks (db (handleNewBlock long_env 5 (running_at 10))))
       = Some (block_of 5 (sample_block []))
   \<and> getLastProcessedBlock (handleNewBlock long_env 5 (running_at 10)) = 5
   \<and> isIndexing stale_store \<and> 5 \<le> lastProcessedBlock stale_store
   \<and> distinct (map b_number (blocks (db stale_store)))
   \<and> blocks (db stale_store) = [block_of 4 (sample_block []), block_of 5 (sample_block [tx_a])]
   \<and> filter (\<lambda>row. b_number row = 5) (blocks (db (handleNewBlock long_env 5 stale_store)))
       = [block_of 5 (sample_block [])]
   \<and> length (blocks (db (handleNewBlock long_env 5 stale_store))) = 2
   \<and> getLastProcessedBlock (handleNewBlock long_env 5 stale_store) = 5"
proof -
  have h1: "isIndexing (running_at 10)" by (simp add: running_at_def)
  have h2: "5 \<le> lastProcessedBlock (running_at 10)" by (simp add: running_at_def)
  have h3: "pass_succeeds long_env 5 (sample_block [])"
    by (simp add: pass_succeeds_def long_env_def scenario_env_def sample_block_def)
  have s: "blocks_fetched (trace (running_at 10)) = []"
    by (simp add: running_at_def fresh_def new_indexer_def)
  have k1: "isIndexing stale_store" by (simp add: stale_store_def running_at_def)
  have k2: "5 \<le> lastProcessedBlock stale_store" by (simp add: stale_store_def running_at_def)
  have k3: "distinct (map b_number (blocks (db stale_store)))"
    by (simp add: stale_store_def block_of_def)
  have k4: "blocks (db stale_store)
              = [block_of 4 (sample_block []), block_of 5 (sample_block [tx_a])]"
    by (simp add: stale_store_def)
  have k5: "5 \<in> b_number ` set (blocks (db stale_store))"
    by (simp add: stale_store_def block_of_def)
  note A = stale_notification_is_reprocessed [OF h1 h2 h3]
  note B = stale_notification_is_reprocessed [OF k1 k2 h3]
  from A s have a: "blocks_fetched (trace (handleNewBlock long_env 5 (running_at 10))) = [5]
      \<and> find_row b_number 5 (blocks (db (handleNewBlock long_env 5 (running_at 10))))
          = Some (block_of 5 (sample_block []))
      \<and> getLastProcessedBlock (handleNewBlock long_env 5 (running_at 10)) = 5"
    by simp
  from B k3 k5 have b: "filter (\<lambda>row. b_number row = 5)
        (blocks (db (handleNewBlock long_env 5 stale_store))) = [block_of 5 (sample_block [])]
      \<and> length (blocks (db (handleNewBlock long_env 5 stale_store))) = length (blocks (db stale_store))
      \<and> getLastProcessedBlock (handleNewBlock long_env 5 stale_store) = 5"
    by blast
  have n: "length (blocks (db stale_store)) = 2" by (simp add: k4)
  from h1 h2 h3 a k1 k2 k3 k4 b n show ?thesis by simp
qed


text \<open>
  C4 as stated fails: with watermark 10, a notification for block 5 writes the row of
  block 5 and moves the watermark to 5.
\<close>

theorem stale_notification_counterexample:
  "getLastProcessedBlock (running_at 10) = 10
   \<and> isRunning (running_at 10)
   \<and> blocks (db (running_at 10)) = []
   \<and> blocks (db (handleNewBlock long_env 5 (running_at 10))) = [block_of 5 (sample_block [])]
   \<and> getLastProcessedBlock (handleNewBlock long_env 5 (running_at 10)) = 5"
  by (simp add: long_env_def scenario_env_def sample_block_def running_at_def fresh_def
      new_indexer_def empty_store_def getLastProcessedBlock_def isRunning_def
      handleNewBlock_def processBlock_def
      processBlock_try_def getBlockWithTransactions_def insertBlock_def block_of_def emit_def)

section \<open>The backfill loop\<close>

lemma backfill_fuel_mono:
  "processHistoricalBlocks k e st = Some r \<Longrightarrow> processHistoricalBlocks (k + j) e st = Some r"
proof (induction k arbitrary: st)
  case 0
  then show ?case by simp
next
  case (Suc k)
  show ?case
  proof (cases "isIndexing st")
    case False
    with Suc.prems show ?thesis by simp
  next
    case True
    show ?thesis
    proof (cases "head_number e")
      case Rejects
      with True Suc.prems Suc.IH show ?thesis
        by (simp add: getLatestBlockNumber_def)
    next
      case (Resolves h)
      show ?thesis
      proof (cases "lastProcessedBlock st + 1 > h")
        case True
        with \<open>isIndexing st\<close> Resolves Suc.prems show ?thesis
          by (simp add: getLatestBlockNumber_def)
      next
        case False
        with \<open>isIndexing st\<close> Resolves Suc.prems Suc.IH show ?thesis
          by (simp add: getLatestBlockNumber_def case_prod_beta split: sum.splits)
      qed
    qed
  qed
qed

lemma backfill_advance:
  assumes "isIndexing st" and "head_number e = Resolves h"
    and "lastProcessedBlock st + 1 \<le> h"
    and "pass_succeeds e (lastProcessedBlock st + 1) bw"
  shows "processHistoricalBlocks (Suc fuel) e st =
           processHistoricalBlocks fuel e
             (snd (processBlock e (lastProcessedBlock st + 1) (emit GetBlockNumber st)))"
proof -
  have "fst (processBlock e (lastProcessedBlock st + 1) (emit GetBlockNumber st)) = Inr ()"
    using assms(4) processBlock_ok_iff by blast
  with assms(1-3) show ?thesis
    by (simp add: getLatestBlockNumber_def case_prod_beta)
qed

lemma backfill_caught_up:
  assumes "isIndexing st" and "head_number e = Resolves h" and "h < lastProcessedBlock st + 1"
  shows "processHistoricalBlocks (Suc fuel) e st =
           Some (emit (LogInfo FinishedHistorical) (emit GetBlockNumber st))"
  using assms by (simp add: getLatestBlockNumber_def)

lemma processBlock_transactions_nil:
  "pass_succeeds e n bw \<Longrightarrow> bw_transactions bw = [] \<Longrightarrow>
     transactions (db (snd (processBlock e n st))) = transactions (db st)"
  by (simp add: pass_succeeds_def processBlock_def processBlock_try_def
      getBlockWithTransactions_def insertBlock_def)

lemma processBlock_transactions_single:
  "pass_succeeds e n bw \<Longrightarrow> bw_transactions bw = [tx] \<Longrightarrow>
   chain_receipt e (tr_hash tx) = Resolves (Some r) \<Longrightarrow>
     transactions (db (snd (processBlock e n st)))
       = upsert_row t_hash (transaction_of n bw tx r) (transactions (db st))"
  by (simp add: pass_succeeds_def receipt_ok_def processBlock_def processBlock_try_def
      getBlockWithTransactions_def insertBlock_def getTransactionReceipt_def
      insertTransaction_def)

lemma processBlock_ok_watermark:
  "pass_succeeds e n bw \<Longrightarrow> lastProcessedBlock (snd (processBlock e n st)) = n"
proof -
  assume "pass_succeeds e n bw"
  then have "fst (processBlock e n st) = Inr ()" using processBlock_ok_iff by blast
  then show ?thesis by (simp add: processBlock_watermark)
qed

lemma scenario_run: "start 3 scenario_env fresh = Some (Inr (), scenario_final)"
  by (simp add: numeral_3_eq_3 scenario_final_def scenario_env_def fresh_def new_indexer_def
      empty_store_def start_def isConnected_def getLatestBlock_def subscribeToNewBlocks_def
      getLatestBlockNumber_def processBlock_def processBlock_try_def
      getBlockWithTransactions_def insertBlock_def getTransactionReceipt_def
      insertTransaction_def sample_block_def tx_a_def block_of_def transaction_of_def emit_def)

lemma upsert_row_all:
  "P r \<Longrightarrow> \<forall>x \<in> set xs. P x \<Longrightarrow> \<forall>x \<in> set (upsert_row key r xs). P x"
  by (induction xs) auto

lemma block_of_number [simp]: "b_number (block_of n bw) = n"
  by (simp add: block_of_def)

lemma backfill_inv_emit [simp]: "backfill_inv (emit ev st) = backfill_inv st"
  by (simp add: backfill_inv_def)

lemma processBlock_inv:
  assumes "backfill_inv st"
  shows "backfill_inv (snd (processBlock e (lastProcessedBlock st + 1) st))"
proof -
  let ?n = "lastProcessedBlock st + 1"
  let ?s = "snd (processBlock e ?n st)"
  from assms have n1: "1 \<le> ?n" by (simp add: backfill_inv_def)
  have rows: "\<forall>b \<in> set (blocks (db ?s)). 1 \<le> b_number b"
  proof -
    have old: "\<forall>b \<in> set (blocks (db st)). 1 \<le> b_number b"
      using assms by (simp add: backfill_inv_def)
    have "\<forall>b \<in> set (upsert_row b_number (block_of ?n bw) (blocks (db st))). 1 \<le> b_number b"
      for bw
      using n1 old by (intro upsert_row_all) simp_all
    with old show ?thesis
      by (simp add: processBlock_blocks split: rpc.splits option.splits)
  qed
  have keys: "b_number ` set (blocks (db st)) \<subseteq> b_number ` set (blocks (db ?s))"
    by (auto simp: processBlock_blocks upsert_row_keys split: rpc.splits option.splits)
  show ?thesis
  proof (cases "fst (processBlock e ?n st)")
    case (Inl err)
    then have "lastProcessedBlock ?s = lastProcessedBlock st"
      by (simp add: processBlock_watermark)
    with assms rows keys show ?thesis by (auto simp: backfill_inv_def)
  next
    case (Inr u)
    then have wm: "lastProcessedBlock ?s = ?n" by (simp add: processBlock_watermark)
    from Inr obtain bw where "pass_succeeds e ?n bw"
      using processBlock_ok_iff [of e ?n st] by auto
    then have "find_row b_number ?n (blocks (db ?s)) = Some (block_of ?n bw)"
      by (rule processBlock_this_block)
    then have "?n \<in> b_number ` set (blocks (db ?s))"
      using find_row_None [of b_number ?n "blocks (db ?s)"] by simp
    with wm n1 rows show ?thesis by (simp add: backfill_inv_def)
  qed
qed

lemma backfill_preserves_inv:
  "processHistoricalBlocks k e st = Some st' \<Longrightarrow> backfill_inv st \<Longrightarrow> backfill_inv st'"
proof (induction k arbitrary: st)
  case 0
  then show ?case by simp
next
  case (Suc k)
  show ?case
  proof (cases "isIndexing st")
    case False
    with Suc.prems show ?thesis by simp
  next
    case True
    show ?thesis
    proof (cases "head_number e")
      case Rejects
      with True Suc.prems
      have "processHistoricalBlocks k e
              (emit (Sleep 5000) (emit (LogError ErrorHistorical) (emit GetBlockNumber st)))
            = Some st'"
        by (simp add: getLatestBlockNumber_def)
      from Suc.IH [OF this] Suc.prems(2) show ?thesis by simp
    next
      case (Resolves h)
      show ?thesis
      proof (cases "lastProcessedBlock st + 1 > h")
        case True
        with \<open>isIndexing st\<close> Resolves Suc.prems show ?thesis
          by (auto simp: getLatestBlockNumber_def)
      next
        case False
        let ?s = "snd (processBlock e (lastProcessedBlock st + 1) (emit GetBlockNumber st))"
        have inv: "backfill_inv ?s"
          using processBlock_inv [of "emit GetBlockNumber st" e] Suc.prems(2) by simp
        show ?thesis
        proof (cases "fst (processBlock e (lastProcessedBlock st + 1) (emit GetBlockNumber st))")
          case (Inl err)
          with False \<open>isIndexing st\<close> Resolves Suc.prems(1)
          have "processHistoricalBlocks k e
                  (emit (Sleep 5000) (emit (LogError ErrorHistorical) ?s)) = Some st'"
            by (simp add: getLatestBlockNumber_def case_prod_beta)
          from Suc.IH [OF this] inv show ?thesis by simp
        next
          case (Inr u)
          with False \<open>isIndexing st\<close> Resolves Suc.prems(1)
          have "processHistoricalBlocks k e ?s = Some st'"
            by (simp add: getLatestBlockNumber_def case_prod_beta)
          from Suc.IH [OF this] inv show ?thesis by simp
        qed
      qed
    qed
  qed
qed

text \<open>
  C6. On an empty store, with head 2 and a chain whose blocks 0, 1 and 2 hold no, one
  and no transaction, where the node and the store answer every request, \<^verbatim>\<open>start\<close>
  returns (three iterations of the backfill loop are enough, and more change nothing),
  and then the store counts one transaction and \<^verbatim>\<open>getLastProcessedBlock()\<close> is 2.
\<close>

theorem backfill_scenario:
  assumes "network_ok e" and "read_ok e" and "head_number e = Resolves 2"
    and "chain_block e 0 = Resolves (Some bw0)" and "bw_transactions bw0 = []"
    and "pass_succeeds e 1 bw1" and "bw_transactions bw1 = [tx]"
    and "chain_receipt e (tr_hash tx) = Resolves (Some r)"
    and "pass_succeeds e 2 bw2" and "bw_transactions bw2 = []"
  shows "\<exists>st'. start (3 + j) e (new_indexer empty_store) = Some (Inr (), st')
              \<and> fst (getTotalTransactions e st') = 1
              \<and> getLastProcessedBlock st' = 2"
proof -
  define s0 where "s0 = subscribeToNewBlocks (emit (LogInfo (StartingFrom 0))
      ((emit GetNetwork (new_indexer empty_store))\<lparr>lastProcessedBlock := 0, isIndexing := True\<rparr>))"
  have st: "start k e (new_indexer empty_store) =
              (case processHistoricalBlocks k e s0 of None \<Rightarrow> None | Some s \<Rightarrow> Some (Inr (), s))"
    for k
    using assms(1,2)
    by (simp add: start_def s0_def isConnected_def getLatestBlock_def new_indexer_def
        empty_store_def emit_def subscribeToNewBlocks_def)
  have s0: "isIndexing s0" "lastProcessedBlock s0 = 0" "transactions (db s0) = []"
    by (simp_all add: s0_def subscribeToNewBlocks_def new_indexer_def empty_store_def)
  define s1 where "s1 = snd (processBlock e 1 (emit GetBlockNumber s0))"
  have s1: "isIndexing s1" "lastProcessedBlock s1 = 1"
    "transactions (db s1) = [transaction_of 1 bw1 tx r]"
    using s0 assms(6-8)
    by (simp_all add: s1_def processBlock_isIndexing processBlock_ok_watermark
        processBlock_transactions_single)
  define s2 where "s2 = snd (processBlock e 2 (emit GetBlockNumber s1))"
  have s2: "isIndexing s2" "lastProcessedBlock s2 = 2"
    "transactions (db s2) = [transaction_of 1 bw1 tx r]"
    using s1 assms(9,10)
    by (simp_all add: s2_def processBlock_isIndexing processBlock_ok_watermark
        processBlock_transactions_nil)
  define s3 where "s3 = emit (LogInfo FinishedHistorical) (emit GetBlockNumber s2)"
  have step1: "processHistoricalBlocks (Suc (Suc (Suc 0))) e s0
                 = processHistoricalBlocks (Suc (Suc 0)) e s1"
    using backfill_advance [of s0 e 2 bw1 "Suc (Suc 0)"] s0 assms(3,6) by (simp add: s1_def)
  have step2: "processHistoricalBlocks (Suc (Suc 0)) e s1 = processHistoricalBlocks (Suc 0) e s2"
    using backfill_advance [of s1 e 2 bw2 "Suc 0"] s1 assms(3,9) by (simp add: s2_def)
  have step3: "processHistoricalBlocks (Suc 0) e s2 = Some s3"
    using backfill_caught_up [of s2 e 2 0] s2 assms(3) by (simp add: s3_def)
  have "processHistoricalBlocks 3 e s0 = Some s3"
    using step1 step2 step3 by (simp add: numeral_3_eq_3)
  then have "processHistoricalBlocks (3 + j) e s0 = Some s3"
    by (rule backfill_fuel_mono)
  then have "start (3 + j) e (new_indexer empty_store) = Some (Inr (), s3)"
    by (simp add: st)
  moreover have "fst (getTotalTransactions e s3) = 1"
    using s2 assms(2) by (simp add: getTotalTransactions_def s3_def)
  moreover have "getLastProcessedBlock s3 = 2"
    using s2 by (simp add: getLastProcessedBlock_def s3_def)
  ultimately show ?thesis by blast
qed

theorem backfill_scenario_witness:
  "network_ok scenario_env \<and> read_ok scenario_env \<and> head_number scenario_env = Resolves 2
   \<and> chain_block scenario_env 0 = Resolves (Some (sample_block []))
   \<and> length (bw_transactions (sample_block [])) = 0
   \<and> pass_succeeds scenario_env 1 (sample_block [tx_a])
   \<and> length (bw_transactions (sample_block [tx_a])) = 1
   \<and> pass_succeeds scenario_env 2 (sample_block [])
   \<and> (\<exists>st'. start 3 scenario_env (new_indexer empty_store) = Some (Inr (), st')
            \<and> fst (getTotalTransactions scenario_env st') = 1
            \<and> getLastProcessedBlock st' = 2)"
proof -
  have h: "network_ok scenario_env" "read_ok scenario_env"
    "head_number scenario_env = Resolves 2"
    "chain_block scenario_env 0 = Resolves (Some (sample_block []))"
    "bw_transactions (sample_block []) = []"
    by (simp_all add: scenario_env_def sample_block_def)
  have p1: "pass_succeeds scenario_env 1 (sample_block [tx_a])"
    by (simp add: pass_succeeds_def receipt_ok_def scenario_env_def sample_block_def tx_a_def)
  have t1: "bw_transactions (sample_block [tx_a]) = [tx_a]"
    by (simp add: sample_block_def)
  have r1: "chain_receipt scenario_env (tr_hash tx_a) = Resolves (Some receipt_a)"
    by (simp add: scenario_env_def tx_a_def)
  have p2: "pass_succeeds scenario_env 2 (sample_block [])"
    by (simp add: pass_succeeds_def scenario_env_def sample_block_def)
  show ?thesis
    using h p1 t1 p2 backfill_scenario [OF h p1 t1 r1 p2 h(5), of 0] by simp
qed


section \<open>The watermark of an empty store\<close>

text \<open>
  C2, as amended. When \<^verbatim>\<open>start\<close> finds no block in the store, the backfill loop is
  entered with watermark 0, so the first block it processes (when the head is at
  least 1) is block 1. Whenever \<^verbatim>\<open>start\<close> returns, it returns normally, the
  watermark is not negative, no stored block has a number below 1, and the watermark
  is 0 if nothing was stored. A new indexer answers 0 to \<^verbatim>\<open>getLastProcessedBlock()\<close>.
\<close>

theorem empty_store_starts_at_zero:
  assumes "\<not> isIndexing st" and "network_ok e" and "blocks (db st) = []"
  shows "(\<exists>s. isIndexing s \<and> lastProcessedBlock s = 0
            \<and> start fuel e st = map_option (Pair (Inr ())) (processHistoricalBlocks fuel e s)
            \<and> (\<forall>h k. head_number e = Resolves h \<and> 1 \<le> h \<longrightarrow>
                  processHistoricalBlocks (Suc k) e s =
                    (case processBlock e 1 (emit GetBlockNumber s) of
                       (Inl err, s2) \<Rightarrow>
                         processHistoricalBlocks k e
                           (emit (Sleep 5000) (emit (LogError ErrorHistorical) s2))
                     | (Inr u, s2) \<Rightarrow> processHistoricalBlocks k e s2)))
       \<and> (\<forall>res st'. start fuel e st = Some (res, st') \<longrightarrow>
             res = Inr ()
             \<and> 0 \<le> getLastProcessedBlock st'
             \<and> (\<forall>b \<in> set (blocks (db st')). 1 \<le> b_number b)
             \<and> (blocks (db st') = [] \<longrightarrow> getLastProcessedBlock st' = 0))
       \<and> getLastProcessedBlock (new_indexer (db st)) = 0"
proof -
  define s0 where "s0 = subscribeToNewBlocks (emit (LogInfo (StartingFrom 0))
      ((snd (getLatestBlock e (emit GetNetwork st)))\<lparr>lastProcessedBlock := 0, isIndexing := True\<rparr>))"
  have latest: "fst (getLatestBlock e (emit GetNetwork st)) = None"
    using assms(3) by (simp add: getLatestBlock_def)
  have st: "start fuel e st = map_option (Pair (Inr ())) (processHistoricalBlocks fuel e s0)"
    using assms(1,2) latest
    by (simp add: start_def s0_def isConnected_def case_prod_beta map_option_case)
  have s0: "isIndexing s0" "lastProcessedBlock s0 = 0" "blocks (db s0) = []"
    using assms(3)
    by (simp_all add: s0_def subscribeToNewBlocks_def getLatestBlock_def)
  have first: "processHistoricalBlocks (Suc k) e s0 =
                 (case processBlock e 1 (emit GetBlockNumber s0) of
                    (Inl err, s2) \<Rightarrow>
                      processHistoricalBlocks k e
                        (emit (Sleep 5000) (emit (LogError ErrorHistorical) s2))
                  | (Inr u, s2) \<Rightarrow> processHistoricalBlocks k e s2)"
    if "head_number e = Resolves h \<and> 1 \<le> h" for h k
    using that s0 by (simp add: getLatestBlockNumber_def)
  have entry: "\<exists>s. isIndexing s \<and> lastProcessedBlock s = 0
            \<and> start fuel e st = map_option (Pair (Inr ())) (processHistoricalBlocks fuel e s)
            \<and> (\<forall>h k. head_number e = Resolves h \<and> 1 \<le> h \<longrightarrow>
                  processHistoricalBlocks (Suc k) e s =
                    (case processBlock e 1 (emit GetBlockNumber s) of
                       (Inl err, s2) \<Rightarrow>
                         processHistoricalBlocks k e
                           (emit (Sleep 5000) (emit (LogError ErrorHistorical) s2))
                     | (Inr u, s2) \<Rightarrow> processHistoricalBlocks k e s2))"
    using s0(1,2) st first by blast
  have inv0: "backfill_inv s0" using s0 by (simp add: backfill_inv_def)
  have returned: "res = Inr ()
             \<and> 0 \<le> getLastProcessedBlock st'
             \<and> (\<forall>b \<in> set (blocks (db st')). 1 \<le> b_number b)
             \<and> (blocks (db st') = [] \<longrightarrow> getLastProcessedBlock st' = 0)"
    if "start fuel e st = Some (res, st')" for res st'
  proof -
    from that st have run: "res = Inr ()" "processHistoricalBlocks fuel e s0 = Some st'"
      by auto
    from run(2) inv0 have "backfill_inv st'" by (rule backfill_preserves_inv)
    with run(1) show ?thesis
      by (auto simp: backfill_inv_def getLastProcessedBlock_def)
  qed
  have new: "getLastProcessedBlock (new_indexer (db st)) = 0"
    by (simp add: getLastProcessedBlock_def new_indexer_def)
  from entry returned new show ?thesis by blast
qed

theorem empty_store_starts_at_zero_witness:
  "\<not> isIndexing fresh \<and> network_ok scenario_env \<and> blocks (db fresh) = []
   \<and> start 3 scenario_env fresh = Some (Inr (), scenario_final)
   \<and> 0 \<le> getLastProcessedBlock scenario_final
   \<and> map b_number (blocks (db scenario_final)) = [1, 2]
   \<and> blocks_fetched (trace scenario_final) = [1, 2]"
proof -
  have h1: "\<not> isIndexing fresh" by (simp add: fresh_def new_indexer_def)
  have h2: "network_ok scenario_env" by (simp add: scenario_env_def)
  have h3: "blocks (db fresh) = []" by (simp add: fresh_def new_indexer_def empty_store_def)
  have n: "map b_number (blocks (db scenario_final)) = [1, 2]"
    "blocks_fetched (trace scenario_final) = [1, 2]"
    by (simp_all add: scenario_final_def)
  note after = empty_store_starts_at_zero [OF h1 h2 h3, of 3, THEN conjunct2, THEN conjunct1,
      rule_format, OF scenario_run]
  from after have w: "0 \<le> getLastProcessedBlock scenario_final" by (rule conjunct2 [THEN conjunct1])
  show ?thesis
    by (rule conjI h1 h2 h3 scenario_run w n)+
qed

text \<open>
  C2 as stated fails: a new indexer answers 0, not -1, and on a chain whose head is
  block 0 \<^verbatim>\<open>start\<close> returns without asking for block 0.
\<close>

theorem empty_store_counterexample:
  "blocks (db fresh) = []
   \<and> getLastProcessedBlock fresh = 0
   \<and> start 1 genesis_env fresh
       = Some (Inr (),
           \<lparr>isIndexing = True, lastProcessedBlock = 0, db = empty_store,
            newBlockCallback = True,
            trace = [GetNetwork, LogInfo (StartingFrom 0), ProviderOn, GetBlockNumber,
                     LogInfo FinishedHistorical]\<rparr>)"
  by (simp add: genesis_env_def scenario_env_def fresh_def new_indexer_def empty_store_def
      getLastProcessedBlock_def start_def isConnected_def getLatestBlock_def
      subscribeToNewBlocks_def getLatestBlockNumber_def emit_def)


section \<open>A refused transaction write\<close>













section \<open>Interface classification\<close>

lemma tags_as_keys:
  "set (map ci_interface_type (filter (\<lambda>row. ci_address row = a) tbl))
     = {t. (a, t) \<in> (\<lambda>r. (ci_address r, ci_interface_type r)) ` set tbl}"
  by (induction tbl) auto

lemma storeInterfaces_keys:
  "fst (storeInterfaces e a fs ds st) = Inr () \<Longrightarrow>
     (\<lambda>r. (ci_address r, ci_interface_type r)) `
        set (contract_interfaces (db (snd (storeInterfaces e a fs ds st))))
     = (\<lambda>r. (ci_address r, ci_interface_type r)) ` set (contract_interfaces (db st))
       \<union> {(toLowerCase a, t) | t req. (t, req) \<in> set ds \<and> set req \<subseteq> fs}"
proof (induction ds arbitrary: st)
  case Nil
  then show ?case by simp
next
  case (Cons d ds)
  obtain t req where d: "d = (t, req)" by (cases d)
  show ?case
  proof (cases "list_all (\<lambda>func. func \<in> fs) req")
    case False
    then have no: "\<not> set req \<subseteq> fs" by (auto simp: list_all_iff)
    from False Cons.prems d have "fst (storeInterfaces e a fs ds st) = Inr ()" by simp
    from Cons.IH [OF this] False no d show ?thesis by auto
  next
    case True
    then have yes: "set req \<subseteq> fs" by (auto simp: list_all_iff)
    let ?row = "\<lparr>ci_address = toLowerCase a, ci_interface_type = t, ci_detected_at = now e\<rparr>"
    show ?thesis
    proof (cases "interface_write_ok e ?row")
      case False
      with True Cons.prems d show ?thesis
        by (simp add: insertContractInterface_def)
    next
      case ok: True
      let ?st1 = "st\<lparr>db := (db st)\<lparr>contract_interfaces :=
                 upsert_row (\<lambda>r. (ci_address r, ci_interface_type r)) ?row
                   (contract_interfaces (db st))\<rparr>\<rparr>"
      from True ok d have eq: "storeInterfaces e a fs (d # ds) st = storeInterfaces e a fs ds ?st1"
        by (simp add: insertContractInterface_def)
      with Cons.prems have "fst (storeInterfaces e a fs ds ?st1) = Inr ()" by simp
      from Cons.IH [OF this] eq yes d show ?thesis
        by (auto simp: upsert_row_keys)
    qed
  qed
qed

lemma detected_tags:
  assumes "read_ok e" and "fst (detectAndStoreInterfaces e address abi st) = Inr ()"
  shows "set (fst (getContractInterfaces e address (snd (detectAndStoreInterfaces e address abi st))))
         = set (fst (getContractInterfaces e address st))
           \<union> {t. \<exists>req. (t, req) \<in> set interfaceDetectors \<and> set req \<subseteq> functions_of abi}"
proof -
  let ?key = "\<lambda>r. (ci_address r, ci_interface_type r)"
  let ?st' = "snd (detectAndStoreInterfaces e address abi st)"
  have tags: "set (fst (getContractInterfaces e address s))
                = {t. (toLowerCase address, t) \<in> ?key ` set (contract_interfaces (db s))}" for s
    using assms(1) tags_as_keys [of "toLowerCase address" "contract_interfaces (db s)"]
    by (simp only: getContractInterfaces_def if_True fst_conv)
  have "?key ` set (contract_interfaces (db ?st'))
          = ?key ` set (contract_interfaces (db st))
            \<union> {(toLowerCase address, t) | t req.
                 (t, req) \<in> set interfaceDetectors \<and> set req \<subseteq> functions_of abi}"
    using assms(2) storeInterfaces_keys [of e address "functions_of abi" interfaceDetectors st]
    by (simp only: detectAndStoreInterfaces_def)
  then show ?thesis
    unfolding tags by blast
qed

lemma detected_exec:
  "{t. \<exists>req. (t, req) \<in> set ds \<and> set req \<subseteq> F}
     = set (map fst (filter (\<lambda>d. list_all (\<lambda>func. func \<in> F) (snd d)) ds))"
  by (force simp: list_all_iff)

lemma detected_erc20:
  "{t. \<exists>req. (t, req) \<in> set interfaceDetectors \<and>
        set req \<subseteq> {''balanceOf'', ''transfer'', ''approve'', ''allowance'', ''transferFrom''}}
   = {''ERC20''}"
  unfolding detected_exec interfaceDetectors_def by simp

lemma detected_erc721:
  "{t. \<exists>req. (t, req) \<in> set interfaceDetectors \<and>
        set req \<subseteq> {''ownerOf'', ''approve'', ''transferFrom'', ''safeTransferFrom''}}
   = {''ERC721''}"
  unfolding detected_exec interfaceDetectors_def by simp

lemma detected_both:
  "{t. \<exists>req. (t, req) \<in> set interfaceDetectors \<and>
        set req \<subseteq> {''balanceOf'', ''transfer'', ''approve'', ''allowance'', ''transferFrom'',
                    ''ownerOf'', ''safeTransferFrom''}}
   = {''ERC20'', ''ERC721''}"
  unfolding detected_exec interfaceDetectors_def by simp


text \<open>
  C9. When every write is accepted, the tags stored for the address after
  \<^verbatim>\<open>detectAndStoreInterfaces\<close> are the tags stored before together with exactly the
  standards whose required functions are all among the function names of the ABI. So
  the five ERC20 functions give ERC20 and nothing else, the four ERC721 functions give
  ERC721 and nothing else, both sets together give both tags, and an ABI that covers no
  required set adds no tag.
\<close>

theorem classifier_tags_supersets:
  assumes "read_ok e" and "fst (detectAndStoreInterfaces e address abi st) = Inr ()"
  shows "set (fst (getContractInterfaces e address (snd (detectAndStoreInterfaces e address abi st))))
           = set (fst (getContractInterfaces e address st))
             \<union> {t. \<exists>req. (t, req) \<in> set interfaceDetectors \<and> set req \<subseteq> functions_of abi}
       \<and> (functions_of abi
             = {''balanceOf'', ''transfer'', ''approve'', ''allowance'', ''transferFrom''} \<longrightarrow>
           set (fst (getContractInterfaces e address
                  (snd (detectAndStoreInterfaces e address abi st))))
             = set (fst (getContractInterfaces e address st)) \<union> {''ERC20''})
       \<and> (functions_of abi
             = {''ownerOf'', ''approve'', ''transferFrom'', ''safeTransferFrom''} \<longrightarrow>
           set (fst (getContractInterfaces e address
                  (snd (detectAndStoreInterfaces e address abi st))))
             = set (fst (getContractInterfaces e address st)) \<union> {''ERC721''})
       \<and> (functions_of abi
             = {''balanceOf'', ''transfer'', ''approve'', ''allowance'', ''transferFrom'',
                ''ownerOf'', ''safeTransferFrom''} \<longrightarrow>
           set (fst (getContractInterfaces e address
                  (snd (detectAndStoreInterfaces e address abi st))))
             = set (fst (getContractInterfaces e address st)) \<union> {''ERC20'', ''ERC721''})
       \<and> ((\<forall>t req. (t, req) \<in> set interfaceDetectors \<longrightarrow> \<not> set req \<subseteq> functions_of abi) \<longrightarrow>
           set (fst (getContractInterfaces e address
                  (snd (detectAndStoreInterfaces e address abi st))))
             = set (fst (getContractInterfaces e address st)))"
proof -
  let ?after = "set (fst (getContractInterfaces e address
                  (snd (detectAndStoreInterfaces e address abi st))))"
  let ?before = "set (fst (getContractInterfaces e address st))"
  let ?D = "\<lambda>F. {t. \<exists>req. (t, req) \<in> set interfaceDetectors \<and> set req \<subseteq> F}"
  have main: "?after = ?before \<union> ?D (functions_of abi)"
    by (rule detected_tags [OF assms])
  have c2: "?after = ?before \<union> {''ERC20''}"
    if "functions_of abi
          = {''balanceOf'', ''transfer'', ''approve'', ''allowance'', ''transferFrom''}"
    unfolding main that by (simp only: detected_erc20)
  have c3: "?after = ?before \<union> {''ERC721''}"
    if "functions_of abi = {''ownerOf'', ''approve'', ''transferFrom'', ''safeTransferFrom''}"
    unfolding main that by (simp only: detected_erc721)
  have c4: "?after = ?before \<union> {''ERC20'', ''ERC721''}"
    if "functions_of abi
          = {''balanceOf'', ''transfer'', ''approve'', ''allowance'', ''transferFrom'',
             ''ownerOf'', ''safeTransferFrom''}"
    unfolding main that by (simp only: detected_both)
  have c5: "?after = ?before"
    if none: "\<forall>t req. (t, req) \<in> set interfaceDetectors \<longrightarrow> \<not> set req \<subseteq> functions_of abi"
  proof -
    from none have "?D (functions_of abi) = {}" by blast
    then show ?thesis unfolding main by (simp only: Un_empty_right)
  qed
  show ?thesis
    by (intro conjI impI) (rule main c2 c3 c4 c5, assumption?)+
qed


theorem classifier_tags_supersets_witness:
  "read_ok scenario_env
   \<and> fst (detectAndStoreInterfaces scenario_env ''0xAbC1'' (erc20_abi @ erc721_abi) fresh) = Inr ()
   \<and> fst (getContractInterfaces scenario_env ''0xAbC1'' fresh) = []
   \<and> set (fst (getContractInterfaces scenario_env ''0xAbC1''
         (snd (detectAndStoreInterfaces scenario_env ''0xAbC1'' (erc20_abi @ erc721_abi) fresh))))
       = {''ERC20'', ''ERC721''}
   \<and> fst (getContractInterfaces scenario_env ''0xAbC1''
         (snd (detectAndStoreInterfaces scenario_env ''0xAbC1'' erc20_abi fresh))) = [''ERC20'']
   \<and> fst (getContractInterfaces scenario_env ''0xAbC1''
         (snd (detectAndStoreInterfaces scenario_env ''0xAbC1'' erc721_abi fresh))) = [''ERC721'']
   \<and> fst (getContractInterfaces scenario_env ''0xAbC1''
         (snd (detectAndStoreInterfaces scenario_env ''0xAbC1'' plain_abi fresh))) = []"
proof -
  have h1: "read_ok scenario_env" by (simp add: scenario_env_def)
  have h2: "fst (detectAndStoreInterfaces scenario_env ''0xAbC1'' (erc20_abi @ erc721_abi) fresh)
              = Inr ()"
    by (simp add: detectAndStoreInterfaces_def scenario_env_def
        interfaceDetectors_def functions_of_def erc20_abi_def erc721_abi_def fn_def
        insertContractInterface_def)
  have b: "fst (getContractInterfaces scenario_env ''0xAbC1'' fresh) = []"
    by (simp add: getContractInterfaces_def fresh_def new_indexer_def empty_store_def)
  have d: "{t. \<exists>req. (t, req) \<in> set interfaceDetectors \<and>
                set req \<subseteq> functions_of (erc20_abi @ erc721_abi)} = {''ERC20'', ''ERC721''}"
    unfolding detected_exec interfaceDetectors_def functions_of_def erc20_abi_def
      erc721_abi_def fn_def
    by simp
  have t: "set (fst (getContractInterfaces scenario_env ''0xAbC1''
         (snd (detectAndStoreInterfaces scenario_env ''0xAbC1'' (erc20_abi @ erc721_abi) fresh))))
       = {''ERC20'', ''ERC721''}"
    unfolding classifier_tags_supersets [OF h1 h2, THEN conjunct1]
    by (simp only: b d list.set Un_empty_left)
  have o1: "fst (getContractInterfaces scenario_env ''0xAbC1''
         (snd (detectAndStoreInterfaces scenario_env ''0xAbC1'' erc20_abi fresh))) = [''ERC20'']"
    by (simp add: getContractInterfaces_def detectAndStoreInterfaces_def scenario_env_def
     interfaceDetectors_def functions_of_def erc20_abi_def fn_def
     insertContractInterface_def
     fresh_def new_indexer_def empty_store_def toLowerCase_def lower_char_def)
  have o2: "fst (getContractInterfaces scenario_env ''0xAbC1''
         (snd (detectAndStoreInterfaces scenario_env ''0xAbC1'' erc721_abi fresh))) = [''ERC721'']"
    by (simp add: getContractInterfaces_def detectAndStoreInterfaces_def scenario_env_def
     interfaceDetectors_def functions_of_def erc721_abi_def fn_def
     insertContractInterface_def
     fresh_def new_indexer_def empty_store_def toLowerCase_def lower_char_def)
  have o3: "fst (getContractInterfaces scenario_env ''0xAbC1''
         (snd (detectAndStoreInterfaces scenario_env ''0xAbC1'' plain_abi fresh))) = []"
    by (simp add: getContractInterfaces_def detectAndStoreInterfaces_def scenario_env_def
     interfaceDetectors_def functions_of_def plain_abi_def fn_def
     insertContractInterface_def
     fresh_def new_indexer_def empty_store_def toLowerCase_def lower_char_def)
  show ?thesis
    by (rule conjI h1 h2 b t o1 o2 o3)+
qed


end
